theory Spec2Isabelle
  imports Complex_Main "HOL-Library.Sublist" "HOL-Library.AList"
begin

section \<open>Errors raised by the program\<close>

text \<open>
  Every exception the modelled functions can raise is a value of \<open>py_error\<close>;
  a fallible function returns \<open>py_error + 'a\<close> with \<open>Inl\<close> for the exception.
\<close>

datatype py_error = ZeroDivisionError | ValueError | IndexError | KeyError | OverflowError

section \<open>Quantizer\<close>












section \<open>Range normalizer\<close>

text \<open>
  A pitch name such as \<^verbatim>\<open>'Bb3'\<close> is the string form of a music21 \<^verbatim>\<open>Pitch\<close>: a step,
  an accidental (a number of semitones, \<open>-1\<close> for a flat) and an octave. The model keeps
  the three components; \<open>R\<close> is the rest symbol \<^verbatim>\<open>'R'\<close>. The height \<open>midi\<close> is the
  MIDI number \<open>12 * (octave + 1) + semitones of the step + accidental\<close>, which is what
  the attribute \<^verbatim>\<open>p.midi\<close> reads for every pitch of the MIDI range.
\<close>

datatype step = StepC | StepD | StepE | StepF | StepG | StepA | StepB

record pitch =
  step :: step
  alter :: int
  octave :: int

datatype pitch_name = R | P pitch

fun step_semitones :: "step \<Rightarrow> int" where
  "step_semitones StepC = 0"
| "step_semitones StepD = 2"
| "step_semitones StepE = 4"
| "step_semitones StepF = 5"
| "step_semitones StepG = 7"
| "step_semitones StepA = 9"
| "step_semitones StepB = 11"

definition midi :: "pitch \<Rightarrow> int" where
  "midi p = 12 * (octave p + 1) + step_semitones (step p) + alter p"

definition mk_pitch :: "step \<Rightarrow> int \<Rightarrow> int \<Rightarrow> pitch" where
  "mk_pitch s a oct = \<lparr>step = s, alter = a, octave = oct\<rparr>"

text \<open>
  \<^verbatim>\<open>
  INSTRUMENT_RANGES = {
      'Flute': ('C4', 'C7'), 'Oboe': ('Bb3', 'A6'), 'Clarinet': ('D3', 'Bb6'),
      'Bassoon': ('Bb1', 'Eb5'), 'Horn': ('F2', 'B5'), 'Trumpet': ('Gb3', 'Gb6'),
      'Trombone': ('E2', 'Bb5'), 'Tuba': ('D1', 'F4'), 'Violin I': ('G3', 'A7'),
      'Violin II': ('G3', 'A7'), 'Viola': ('C3', 'E6'), 'Violoncello': ('C2', 'C6'),
      'Double Bass': ('E1', 'G4'), 'Piano': ('A0', 'C8') }
  \<close>
\<close>

definition INSTRUMENT_RANGES :: "(string \<times> (pitch \<times> pitch)) list" where
  "INSTRUMENT_RANGES =
    [(''Flute'', (mk_pitch StepC 0 4, mk_pitch StepC 0 7)),
     (''Oboe'', (mk_pitch StepB (-1) 3, mk_pitch StepA 0 6)),
     (''Clarinet'', (mk_pitch StepD 0 3, mk_pitch StepB (-1) 6)),
     (''Bassoon'', (mk_pitch StepB (-1) 1, mk_pitch StepE (-1) 5)),
     (''Horn'', (mk_pitch StepF 0 2, mk_pitch StepB 0 5)),
     (''Trumpet'', (mk_pitch StepG (-1) 3, mk_pitch StepG (-1) 6)),
     (''Trombone'', (mk_pitch StepE 0 2, mk_pitch StepB (-1) 5)),
     (''Tuba'', (mk_pitch StepD 0 1, mk_pitch StepF 0 4)),
     (''Violin I'', (mk_pitch StepG 0 3, mk_pitch StepA 0 7)),
     (''Violin II'', (mk_pitch StepG 0 3, mk_pitch StepA 0 7)),
     (''Viola'', (mk_pitch StepC 0 3, mk_pitch StepE 0 6)),
     (''Violoncello'', (mk_pitch StepC 0 2, mk_pitch StepC 0 6)),
     (''Double Bass'', (mk_pitch StepE 0 1, mk_pitch StepG 0 4)),
     (''Piano'', (mk_pitch StepA 0 0, mk_pitch StepC 0 8))]"

text \<open>\<^verbatim>\<open>s.split(sep)[0]\<close>: the part of \<open>s\<close> before the first occurrence of \<open>sep\<close>.\<close>

fun split_first :: "string \<Rightarrow> string \<Rightarrow> string" where
  "split_first sep [] = []"
| "split_first sep (c # cs) =
     (if prefix sep (c # cs) then [] else c # split_first sep cs)"

text \<open>
  The lookup of the instrument's range, with the doubling suffix removed and the
  fallback to \<^verbatim>\<open>INSTRUMENT_RANGES["Violin I"]\<close> for an unknown name.
\<close>

definition instrument_range :: "string \<Rightarrow> py_error + (pitch \<times> pitch)" where
  "instrument_range instrument =
     (let base_instrument = split_first '' #'' instrument
      in case map_of INSTRUMENT_RANGES base_instrument of
           Some r \<Rightarrow> Inr r
         | None \<Rightarrow>
             (case map_of INSTRUMENT_RANGES ''Violin I'' of
                Some r \<Rightarrow> Inr r
              | None \<Rightarrow> Inl KeyError))"

text \<open>
  The two loops of \<^verbatim>\<open>adjust_pitch_to_range\<close>:
  \<^verbatim>\<open>
      while p.midi < min_p.midi:
          p.octave += 1
      while p.midi > max_p.midi:
          p.octave -= 1
  \<close>
  Each is a recursive function into \<open>option\<close>, where \<open>None\<close> stands for a loop that
  never leaves.
\<close>

partial_function (option) octave_up_loop :: "int \<Rightarrow> pitch \<Rightarrow> pitch option" where
  "octave_up_loop min_midi p =
     (if midi p < min_midi then octave_up_loop min_midi (p\<lparr>octave := octave p + 1\<rparr>)
      else Some p)"

partial_function (option) octave_down_loop :: "int \<Rightarrow> pitch \<Rightarrow> pitch option" where
  "octave_down_loop max_midi p =
     (if max_midi < midi p then octave_down_loop max_midi (p\<lparr>octave := octave p - 1\<rparr>)
      else Some p)"

declare octave_up_loop.simps [code]
declare octave_down_loop.simps [code]

definition octave_loops :: "int \<Rightarrow> int \<Rightarrow> pitch \<Rightarrow> pitch option" where
  "octave_loops min_midi max_midi p =
     (case octave_up_loop min_midi p of
        None \<Rightarrow> None
      | Some p' \<Rightarrow> octave_down_loop max_midi p')"

text \<open>
  \<^verbatim>\<open>
  def adjust_pitch_to_range(note_pitch, instrument):
      if note_pitch == 'R':
          return note_pitch
      base_instrument = instrument.split(" #")[0]
      if base_instrument in INSTRUMENT_RANGES:
          min_pitch, max_pitch = INSTRUMENT_RANGES[base_instrument]
      else:
          min_pitch, max_pitch = INSTRUMENT_RANGES["Violin I"]
      p = pitch.Pitch(note_pitch)
      min_p = pitch.Pitch(min_pitch)
      max_p = pitch.Pitch(max_pitch)
      (the two loops)
      return p.nameWithOctave
  \<close>
  The outer \<open>option\<close> is \<open>None\<close> when a loop does not terminate; the sum carries
  an exception.
\<close>

definition adjust_pitch_to_range :: "pitch_name \<Rightarrow> string \<Rightarrow> (py_error + pitch_name) option" where
  "adjust_pitch_to_range note_pitch instrument =
     (case note_pitch of
        R \<Rightarrow> Some (Inr R)
      | P p \<Rightarrow>
          (case instrument_range instrument of
             Inl e \<Rightarrow> Some (Inl e)
           | Inr (min_p, max_p) \<Rightarrow>
               (case octave_loops (midi min_p) (midi max_p) p of
                  None \<Rightarrow> None
                | Some p' \<Rightarrow> Some (Inr (P p')))))"


section \<open>Random source\<close>

text \<open>
  The module-level generator of \<^verbatim>\<open>random\<close> is an explicit argument: an infinite
  sequence of raw draws, of which every call consumes the first. A raw draw is any
  natural number, so a statement about every \<open>rng\<close> covers every outcome.
  \<^item> \<^verbatim>\<open>random.random()\<close> returns \<open>k / 2^53\<close> for an integer \<open>0 \<le> k < 2^53\<close>;
  \<^item> \<^verbatim>\<open>random.choice(seq)\<close> returns \<open>seq[i]\<close> for an index \<open>i\<close> below \<open>len(seq)\<close> and
    raises \<open>IndexError\<close> on an empty sequence;
  \<^item> \<^verbatim>\<open>random.choices(population, weights=w)[0]\<close> accumulates the weights, raises
    \<open>IndexError\<close> when there is none and \<open>ValueError\<close> when their total is not positive,
    and returns \<open>population[bisect(cum_weights, random() * total, 0, n - 1)]\<close>.
\<close>

type_synonym rng = "nat \<Rightarrow> nat"

definition rng_draw :: "rng \<Rightarrow> nat \<times> rng" where
  "rng_draw g = (g 0, \<lambda>i. g (Suc i))"

definition random_random :: "rng \<Rightarrow> rat \<times> rng" where
  "random_random g =
     (case rng_draw g of (r, g') \<Rightarrow> (of_int (int r mod 2 ^ 53) / 2 ^ 53, g'))"

definition random_choice :: "'a list \<Rightarrow> rng \<Rightarrow> py_error + ('a \<times> rng)" where
  "random_choice seq g =
     (if seq = [] then Inl IndexError
      else case rng_draw g of (r, g') \<Rightarrow> Inr (seq ! (r mod length seq), g'))"

fun accumulate :: "rat \<Rightarrow> rat list \<Rightarrow> rat list" where
  "accumulate acc [] = []"
| "accumulate acc (w # ws) = (acc + w) # accumulate (acc + w) ws"

text \<open>
  \<^verbatim>\<open>
  def bisect_right(a, x, lo, hi):
      while lo < hi:
          mid = (lo + hi) // 2
          if x < a[mid]: hi = mid
          else: lo = mid + 1
      return lo
  \<close>
\<close>

function bisect_right :: "rat list \<Rightarrow> rat \<Rightarrow> nat \<Rightarrow> nat \<Rightarrow> nat" where
  "bisect_right a x lo hi =
     (if lo < hi then
        (let mid = (lo + hi) div 2
         in if x < a ! mid then bisect_right a x lo mid
            else bisect_right a x (mid + 1) hi)
      else lo)"
  by pat_completeness auto
termination
  by (relation "measure (\<lambda>(a, x, lo, hi). hi - lo)") auto

declare bisect_right.simps [simp del]

definition random_choices :: "'a list \<Rightarrow> rat list \<Rightarrow> rng \<Rightarrow> py_error + ('a \<times> rng)" where
  "random_choices population weights g =
     (let n = length population;
          cum_weights = accumulate 0 weights
      in if length cum_weights \<noteq> n then Inl ValueError
         else if cum_weights = [] then Inl IndexError
         else
           let total = last cum_weights
           in if total \<le> 0 then Inl ValueError
              else case random_random g of
                (u, g') \<Rightarrow> Inr (population ! bisect_right cum_weights (u * total) 0 (n - 1), g'))"

section \<open>Sequence generator\<close>

text \<open>
  A transition matrix is a dictionary of dictionaries. Python dictionaries keep the
  order of insertion, and \<^verbatim>\<open>list(matrix.keys())\<close> depends on it, so a dictionary is an
  association list; \<open>map_of\<close> is the lookup.
\<close>

type_synonym 'k table = "('k \<times> rat) list"
type_synonym ('s, 'k) matrix = "('s \<times> 'k table) list"

text \<open>
  One iteration of the loop of \<^verbatim>\<open>_generate_sequence\<close>:
  \<^verbatim>\<open>
      if current_state in matrix:
          next_states = list(matrix[current_state].keys())
          probabilities = list(matrix[current_state].values())
          current_state = random.choices(next_states, weights=probabilities)[0]
      else:
          current_state = random.choice(list(matrix.keys()))
  \<close>
\<close>

definition generate_step :: "('k, 'k) matrix \<Rightarrow> 'k \<Rightarrow> rng \<Rightarrow> py_error + ('k \<times> rng)" where
  "generate_step matrix current_state g =
     (case map_of matrix current_state of
        Some row \<Rightarrow> random_choices (map fst row) (map snd row) g
      | None \<Rightarrow> random_choice (map fst matrix) g)"

fun generate_loop :: "nat \<Rightarrow> ('k, 'k) matrix \<Rightarrow> 'k \<Rightarrow> rng \<Rightarrow> py_error + ('k list \<times> rng)" where
  "generate_loop 0 matrix current_state g = Inr ([], g)"
| "generate_loop (Suc n) matrix current_state g =
     (case generate_step matrix current_state g of
        Inl e \<Rightarrow> Inl e
      | Inr (s, g') \<Rightarrow>
          (case generate_loop n matrix s g' of
             Inl e \<Rightarrow> Inl e
           | Inr (rest, g'') \<Rightarrow> Inr (s # rest, g'')))"

text \<open>
  \<^verbatim>\<open>
  def _generate_sequence(self, length, matrix):
      if not matrix:
          raise ValueError("Matriz de transicao vazia")
      sequence = []
      current_state = random.choice(list(matrix.keys()))
      sequence.append(current_state)
      for _ in range(length - 1):
          (the iteration above)
          sequence.append(current_state)
      return sequence
  \<close>
  \<^verbatim>\<open>range(length - 1)\<close> is empty for \<open>length \<le> 1\<close>.
\<close>

definition generate_sequence :: "int \<Rightarrow> ('k, 'k) matrix \<Rightarrow> rng \<Rightarrow> py_error + ('k list \<times> rng)" where
  "generate_sequence length' matrix g =
     (if matrix = [] then Inl ValueError
      else case random_choice (map fst matrix) g of
        Inl e \<Rightarrow> Inl e
      | Inr (current_state, g') \<Rightarrow>
          (case generate_loop (nat (length' - 1)) matrix current_state g' of
             Inl e \<Rightarrow> Inl e
           | Inr (rest, g'') \<Rightarrow> Inr (current_state # rest, g'')))"

text \<open>
  The symbols of a matrix: its keys (the states that have a row) and the successors
  listed in its rows. A row can be sampled when it is not empty and the total of its
  weights is positive.
\<close>

definition matrix_keys :: "('s, 'k) matrix \<Rightarrow> 's set" where
  "matrix_keys matrix = set (map fst matrix)"

definition matrix_successors :: "('s, 'k) matrix \<Rightarrow> 'k set" where
  "matrix_successors matrix = set (concat (map (\<lambda>(s, row). map fst row) matrix))"

definition rows_sampleable :: "('s, 'k) matrix \<Rightarrow> bool" where
  "rows_sampleable matrix =
     list_all (\<lambda>(s, row). row \<noteq> [] \<and> 0 < sum_list (map snd row)) matrix"

text \<open>The random source whose every raw draw is \<open>r\<close>.\<close>

definition const_rng :: "nat \<Rightarrow> rng" where
  "const_rng r = (\<lambda>i. r)"

section \<open>Meter schedule generator\<close>

text \<open>
  A time signature is the string the program passes around (\<^verbatim>\<open>'4/4'\<close>, \<^verbatim>\<open>'6/8'\<close>, ...).
  The state of the loop of \<^verbatim>\<open>generate_time_signature_sequence\<close> is the schedule built
  so far, the current time signature and the random source.
  \<^verbatim>\<open>
      for measure_num in range(1, num_measures + 1):
          if measure_num > 1 and random.random() < 0.15:
              other_sigs = [sig for sig in available_time_sigs if sig != current_time_sig]
              current_time_sig = random.choice(other_sigs)
              time_sig_sequence.append((measure_num, current_time_sig))
          elif measure_num == 1:
              time_sig_sequence.append((1, current_time_sig))
  \<close>
  The \<^verbatim>\<open>and\<close> short-circuits: no draw is made for measure 1. The values of
  \<^verbatim>\<open>random.random()\<close> are multiples of \<open>2^-53\<close>, and for those the comparison with the
  float \<^verbatim>\<open>0.15\<close> agrees with the comparison with \<open>15/100\<close>.
\<close>

definition available_time_sigs :: "string list" where
  "available_time_sigs = [''4/4'', ''3/4'', ''2/4'', ''3/8'', ''6/8'', ''12/8'']"

type_synonym schedule = "(int \<times> string) list"

definition schedule_step ::
  "int \<Rightarrow> schedule \<times> string \<times> rng \<Rightarrow> py_error + (schedule \<times> string \<times> rng)" where
  "schedule_step measure_num st =
     (case st of (time_sig_sequence, current_time_sig, g) \<Rightarrow>
        if 1 < measure_num then
          (case random_random g of (u, g1) \<Rightarrow>
             if u < 15 / 100 then
               (let other_sigs = filter (\<lambda>sig. sig \<noteq> current_time_sig) available_time_sigs
                in case random_choice other_sigs g1 of
                     Inl e \<Rightarrow> Inl e
                   | Inr (new_sig, g2) \<Rightarrow>
                       Inr (time_sig_sequence @ [(measure_num, new_sig)], new_sig, g2))
             else if measure_num = 1 then
               Inr (time_sig_sequence @ [(1, current_time_sig)], current_time_sig, g1)
             else Inr (time_sig_sequence, current_time_sig, g1))
        else if measure_num = 1 then
          Inr (time_sig_sequence @ [(1, current_time_sig)], current_time_sig, g)
        else Inr (time_sig_sequence, current_time_sig, g))"

fun schedule_loop ::
  "int list \<Rightarrow> schedule \<times> string \<times> rng \<Rightarrow> py_error + (schedule \<times> string \<times> rng)" where
  "schedule_loop [] st = Inr st"
| "schedule_loop (measure_num # rest) st =
     (case schedule_step measure_num st of
        Inl e \<Rightarrow> Inl e
      | Inr st' \<Rightarrow> schedule_loop rest st')"

text \<open>
  \<^verbatim>\<open>
  def generate_time_signature_sequence(base_time_sig, num_measures, random_changes=False):
      if not random_changes:
          return [(1, base_time_sig)]
      available_time_sigs = ['4/4', '3/4', '2/4', '3/8', '6/8', '12/8']
      time_sig_sequence = []
      current_time_sig = base_time_sig
      (the loop above)
      return time_sig_sequence
  \<close>
\<close>

definition generate_time_signature_sequence ::
  "string \<Rightarrow> int \<Rightarrow> bool \<Rightarrow> rng \<Rightarrow> py_error + (schedule \<times> rng)" where
  "generate_time_signature_sequence base_time_sig num_measures random_changes g =
     (if \<not> random_changes then Inr ([(1, base_time_sig)], g)
      else case schedule_loop [1..num_measures] ([], base_time_sig, g) of
             Inl e \<Rightarrow> Inl e
           | Inr (time_sig_sequence, current_time_sig, g') \<Rightarrow> Inr (time_sig_sequence, g'))"

text \<open>
  The invariant of the loop once measure 1 is recorded: the schedule starts with
  \<open>(1, base)\<close>, its last entry carries the current time signature, its measure numbers
  increase strictly and no entry repeats the time signature of the entry before it.
\<close>

definition schedule_inv :: "string \<Rightarrow> schedule \<Rightarrow> string \<Rightarrow> bool" where
  "schedule_inv base seq cur \<longleftrightarrow>
     seq \<noteq> [] \<and> hd seq = (1, base) \<and> snd (last seq) = cur
     \<and> sorted_wrt (<) (map fst seq) \<and> distinct_adj (map snd seq)"

section \<open>Markov trainer\<close>

text \<open>
  A note is the tuple \<^verbatim>\<open>(pitch, duration, dynamic, articulation, velocity)\<close>; the trainer
  reads the components 0, 1 and 4.
\<close>

type_synonym note_data = "pitch_name \<times> rat \<times> string \<times> string \<times> int"

definition pitch_of :: "note_data \<Rightarrow> pitch_name" where
  "pitch_of n = (case n of (p, d, dyn, art, vel) \<Rightarrow> p)"

definition duration_of :: "note_data \<Rightarrow> rat" where
  "duration_of n = (case n of (p, d, dyn, art, vel) \<Rightarrow> d)"

definition velocity_of :: "note_data \<Rightarrow> int" where
  "velocity_of n = (case n of (p, d, dyn, art, vel) \<Rightarrow> vel)"

text \<open>
  The fields of \<^verbatim>\<open>MarkovChainMelodyGenerator\<close> that training touches. Counts start as
  integers and become floats when a row is normalised in place; both are rationals
  here.
\<close>

record generator =
  states :: "note_data list"
  order :: nat
  initial_probabilities :: "note_data list table"
  transition_matrix :: "(note_data list, note_data) matrix"
  pitch_matrix :: "(pitch_name, pitch_name) matrix"
  duration_matrix :: "(rat, rat) matrix"
  velocity_matrix :: "(int, int) matrix"

text \<open>
  \<^verbatim>\<open>
  def __init__(self, states, order=1):
      if not states:
          raise ValueError(...)
      self.states = states
      self.order = order
      self.initial_probabilities = {}
      self.transition_matrix = {}
      self.pitch_matrix = {}
      self.duration_matrix = {}
      self.velocity_matrix = {}
  \<close>
\<close>

definition init_generator :: "note_data list \<Rightarrow> nat \<Rightarrow> py_error + generator" where
  "init_generator sts ord =
     (if sts = [] then Inl ValueError
      else Inr \<lparr>states = sts, order = ord, initial_probabilities = [],
                transition_matrix = [], pitch_matrix = [], duration_matrix = [],
                velocity_matrix = []\<rparr>)"

text \<open>\<^verbatim>\<open>d.get(k, default)\<close>, and \<^verbatim>\<open>d[k] = v\<close> as \<open>AList.update k v d\<close>: the entry is
  replaced where it stands, or added at the end.\<close>

definition dict_get :: "('k \<times> 'v) list \<Rightarrow> 'k \<Rightarrow> 'v \<Rightarrow> 'v" where
  "dict_get d k dflt = (case map_of d k of None \<Rightarrow> dflt | Some v \<Rightarrow> v)"

text \<open>
  Counting one transition, as every counting loop of the trainer does it:
  \<^verbatim>\<open>
      if current_state not in matrix:
          matrix[current_state] = {}
      matrix[current_state][next_state] = matrix[current_state].get(next_state, 0) + 1
  \<close>
\<close>

definition count_transition :: "('s, 'k) matrix \<Rightarrow> 's \<Rightarrow> 'k \<Rightarrow> ('s, 'k) matrix" where
  "count_transition matrix current_state next_state =
     (let row = dict_get matrix current_state []
      in AList.update current_state
           (AList.update next_state (dict_get row next_state 0 + 1) row) matrix)"

text \<open>
  Normalising a dictionary of counts in place:
  \<^verbatim>\<open>
      total = sum(row.values())
      for next_state in row:
          row[next_state] /= total
  \<close>
  The division raises \<open>ZeroDivisionError\<close> when the total is zero and the row has an
  entry to divide.
\<close>

definition normalize_row :: "'k table \<Rightarrow> py_error + 'k table" where
  "normalize_row row =
     (let total = sum_list (map snd row)
      in if row \<noteq> [] \<and> total = 0 then Inl ZeroDivisionError
         else Inr (map (\<lambda>(k, v). (k, v / total)) row))"

fun normalize_matrix :: "('s, 'k) matrix \<Rightarrow> py_error + ('s, 'k) matrix" where
  "normalize_matrix [] = Inr []"
| "normalize_matrix ((state, row) # rest) =
     (case normalize_row row of
        Inl e \<Rightarrow> Inl e
      | Inr row' \<Rightarrow>
          (case normalize_matrix rest of
             Inl e \<Rightarrow> Inl e
           | Inr rest' \<Rightarrow> Inr ((state, row') # rest')))"

text \<open>
  \<^verbatim>\<open>
  def _calculate_initial_probabilities(self, notes):
      for i in range(len(notes) - self.order + 1):
          state = tuple(notes[i:i+self.order])
          self.initial_probabilities[state] = self.initial_probabilities.get(state, 0) + 1
      total = sum(self.initial_probabilities.values())
      for state in self.initial_probabilities:
          self.initial_probabilities[state] /= total
  \<close>
\<close>

definition initial_counts :: "nat \<Rightarrow> note_data list table \<Rightarrow> note_data list \<Rightarrow> note_data list table" where
  "initial_counts ord probs notes =
     fold (\<lambda>i d. let state = take ord (drop i notes)
                  in AList.update state (dict_get d state 0 + 1) d)
       [0..<nat (int (length notes) - int ord + 1)] probs"

definition calculate_initial_probabilities :: "generator \<Rightarrow> note_data list \<Rightarrow> py_error + generator" where
  "calculate_initial_probabilities gen notes =
     (case normalize_row (initial_counts (order gen) (initial_probabilities gen) notes) of
        Inl e \<Rightarrow> Inl e
      | Inr probs \<Rightarrow> Inr (gen\<lparr>initial_probabilities := probs\<rparr>))"

text \<open>
  \<^verbatim>\<open>
  def _calculate_transition_matrix(self, notes):
      for i in range(len(notes) - self.order):
          current_state = tuple(notes[i:i+self.order])
          next_state = notes[i+self.order]
          (count the transition in self.transition_matrix)
      for current_state in self.transition_matrix:
          (normalise the row)
  \<close>
\<close>

definition transition_counts ::
  "nat \<Rightarrow> (note_data list, note_data) matrix \<Rightarrow> note_data list \<Rightarrow> (note_data list, note_data) matrix" where
  "transition_counts ord matrix notes =
     fold (\<lambda>i m. count_transition m (take ord (drop i notes)) (notes ! (i + ord)))
       [0..<nat (int (length notes) - int ord)] matrix"

definition calculate_transition_matrix :: "generator \<Rightarrow> note_data list \<Rightarrow> py_error + generator" where
  "calculate_transition_matrix gen notes =
     (case normalize_matrix (transition_counts (order gen) (transition_matrix gen) notes) of
        Inl e \<Rightarrow> Inl e
      | Inr m \<Rightarrow> Inr (gen\<lparr>transition_matrix := m\<rparr>))"

text \<open>
  \<^verbatim>\<open>
  def _calculate_separate_matrices(self, notes):
      for i in range(len(notes) - 1):
          current_state = notes[i]
          next_state = notes[i + 1]
          (count current_state[0] -> next_state[0] in self.pitch_matrix)
          (count current_state[1] -> next_state[1] in self.duration_matrix)
          (count current_state[4] -> next_state[4] in self.velocity_matrix)
      self._normalize_matrix(self.pitch_matrix)
      self._normalize_matrix(self.duration_matrix)
      self._normalize_matrix(self.velocity_matrix)
  \<close>
  The loop works on the three matrices together.
\<close>

type_synonym axis_matrices =
  "(pitch_name, pitch_name) matrix \<times> (rat, rat) matrix \<times> (int, int) matrix"

definition count_separate :: "note_data list \<Rightarrow> nat \<Rightarrow> axis_matrices \<Rightarrow> axis_matrices" where
  "count_separate notes i matrices =
     (case matrices of (pm, dm, vm) \<Rightarrow>
        let current_state = notes ! i; next_state = notes ! (i + 1)
        in (count_transition pm (pitch_of current_state) (pitch_of next_state),
            count_transition dm (duration_of current_state) (duration_of next_state),
            count_transition vm (velocity_of current_state) (velocity_of next_state)))"

definition separate_counts :: "axis_matrices \<Rightarrow> note_data list \<Rightarrow> axis_matrices" where
  "separate_counts matrices notes =
     fold (count_separate notes) [0..<nat (int (length notes) - 1)] matrices"

definition calculate_separate_matrices :: "generator \<Rightarrow> note_data list \<Rightarrow> py_error + generator" where
  "calculate_separate_matrices gen notes =
     (case separate_counts (pitch_matrix gen, duration_matrix gen, velocity_matrix gen) notes of
        (pm, dm, vm) \<Rightarrow>
          (case normalize_matrix pm of
             Inl e \<Rightarrow> Inl e
           | Inr pm' \<Rightarrow>
               (case normalize_matrix dm of
                  Inl e \<Rightarrow> Inl e
                | Inr dm' \<Rightarrow>
                    (case normalize_matrix vm of
                       Inl e \<Rightarrow> Inl e
                     | Inr vm' \<Rightarrow>
                         Inr (gen\<lparr>pitch_matrix := pm', duration_matrix := dm',
                                  velocity_matrix := vm'\<rparr>)))))"

text \<open>
  \<^verbatim>\<open>
  def train(self, notes):
      if not notes:
          raise ValueError(...)
      self._calculate_initial_probabilities(notes)
      self._calculate_transition_matrix(notes)
      self._calculate_separate_matrices(notes)
  \<close>
\<close>

definition train :: "generator \<Rightarrow> note_data list \<Rightarrow> py_error + generator" where
  "train gen notes =
     (if notes = [] then Inl ValueError
      else case calculate_initial_probabilities gen notes of
             Inl e \<Rightarrow> Inl e
           | Inr gen1 \<Rightarrow>
               (case calculate_transition_matrix gen1 notes of
                  Inl e \<Rightarrow> Inl e
                | Inr gen2 \<Rightarrow> calculate_separate_matrices gen2 notes))"

text \<open>
  Predicates on the rows of a matrix: every row has a positive total; every row sums
  to one; every row is non-empty with positive entries (what the counting loops
  maintain).
\<close>

definition rows_total_positive :: "('s, 'k) matrix \<Rightarrow> bool" where
  "rows_total_positive matrix = list_all (\<lambda>(s, row). 0 < sum_list (map snd row)) matrix"

definition rows_sum_to_one :: "('s, 'k) matrix \<Rightarrow> bool" where
  "rows_sum_to_one matrix = list_all (\<lambda>(s, row). sum_list (map snd row) = 1) matrix"

definition rows_counted :: "('s, 'k) matrix \<Rightarrow> bool" where
  "rows_counted matrix =
     list_all (\<lambda>(s, row). row \<noteq> [] \<and> list_all (\<lambda>(k, v). 0 < v) row) matrix"

definition axis_counted :: "axis_matrices \<Rightarrow> bool" where
  "axis_counted matrices =
     (case matrices of (pm, dm, vm) \<Rightarrow> rows_counted pm \<and> rows_counted dm \<and> rows_counted vm)"

text \<open>A small corpus: C5, G5, a rest, C5.\<close>

definition sample_corpus :: "note_data list" where
  "sample_corpus =
     [(P (mk_pitch StepC 0 5), 1, ''mf'', ''normal'', 64),
      (P (mk_pitch StepG 0 5), 1, ''mf'', ''normal'', 80),
      (R, 2, ''mf'', ''normal'', 64),
      (P (mk_pitch StepC 0 5), 1, ''mf'', ''normal'', 64)]"

section \<open>Layout assembler\<close>

text \<open>
  \<^verbatim>\<open>
  def get_time_signature_value(time_sig_str):
      numerator, denominator = map(int, time_sig_str.split('/'))
      beat_value = 4.0 / denominator
      measure_length = numerator * beat_value
      return measure_length
  \<close>
  \<open>split_char\<close> is \<^verbatim>\<open>str.split\<close> with a one-character separator. \<open>parse_int\<close> is \<^verbatim>\<open>int\<close> on
  a string of decimal digits, which is what the time signatures of the program are
  made of; on any other string it yields \<open>ValueError\<close>. Unpacking anything but two
  parts raises \<open>ValueError\<close>, a zero denominator \<open>ZeroDivisionError\<close>.
\<close>

fun split_char :: "char \<Rightarrow> string \<Rightarrow> string list" where
  "split_char c [] = [[]]"
| "split_char c (x # xs) =
     (if x = c then [] # split_char c xs
      else case split_char c xs of
             w # ws \<Rightarrow> (x # w) # ws
           | [] \<Rightarrow> [[x]])"

definition is_digit :: "char \<Rightarrow> bool" where
  "is_digit c \<longleftrightarrow> 48 \<le> (of_char c :: nat) \<and> (of_char c :: nat) \<le> 57"

definition parse_int :: "string \<Rightarrow> py_error + int" where
  "parse_int s =
     (if s = [] \<or> \<not> list_all is_digit s then Inl ValueError
      else Inr (fold (\<lambda>c n. 10 * n + (int (of_char c) - 48)) s 0))"

definition get_time_signature_value :: "string \<Rightarrow> py_error + rat" where
  "get_time_signature_value time_sig_str =
     (case split_char CHR ''/'' time_sig_str of
        [a, b] \<Rightarrow>
          (case parse_int a of
             Inl e \<Rightarrow> Inl e
           | Inr numerator \<Rightarrow>
               (case parse_int b of
                  Inl e \<Rightarrow> Inl e
                | Inr denominator \<Rightarrow>
                    if denominator = 0 then Inl ZeroDivisionError
                    else Inr (of_int numerator * (4 / of_int denominator))))
      | _ \<Rightarrow> Inl ValueError)"

text \<open>
  The objects put into a measure: a time signature, the metronome mark, a dynamic
  mark, a note (pitch, quarter length, velocity, tie) and a rest (quarter length). A
  measure is its number and its elements in the order of their offsets;
  \<^verbatim>\<open>insert(0, x)\<close> puts \<open>x\<close> at the front, \<^verbatim>\<open>append(x)\<close> at the end. A part is the list of
  the measures appended to it.
\<close>

datatype tie = TieStart | TieStop

datatype element =
    TimeSignature string
  | MetronomeMark int
  | Dynamic string
  | Note pitch rat int "tie option"
  | Rest rat

record measure =
  number :: int
  elements :: "element list"

definition measure_insert0 :: "element \<Rightarrow> measure \<Rightarrow> measure" where
  "measure_insert0 x m = m\<lparr>elements := x # elements m\<rparr>"

definition measure_append :: "element \<Rightarrow> measure \<Rightarrow> measure" where
  "measure_append x m = m\<lparr>elements := elements m @ [x]\<rparr>"

text \<open>
  \<^verbatim>\<open>n.tie = tie.Tie('start')\<close> is executed when \<open>n\<close>, the last element appended to the
  measure, already sits in the measure that was appended to the part.
\<close>

fun set_tie :: "tie \<Rightarrow> element \<Rightarrow> element" where
  "set_tie t (Note p d v old) = Note p d v (Some t)"
| "set_tie t x = x"

definition tie_last :: "tie \<Rightarrow> measure \<Rightarrow> measure" where
  "tie_last t m =
     (if elements m = [] then m
      else m\<lparr>elements := butlast (elements m) @ [set_tie t (last (elements m))]\<rparr>)"

text \<open>The variables of the loop over the notes of one voice.\<close>

record assembler_state =
  part :: "measure list"
  current_measure :: measure
  current_ts :: string
  measure_length :: rat
  measure_duration :: rat
  current_dynamic :: "string option"
  measure_count :: int

text \<open>
  \<^verbatim>\<open>
      current_measure = stream.Measure(number=1)
      current_ts = time_signature
      measure_length = get_time_signature_value(current_ts)
      current_measure.insert(0, meter.TimeSignature(current_ts))
      current_measure.insert(0, mm)
      measure_duration = 0.0
      current_dynamic = None
      measure_count = 1
  \<close>
\<close>

definition initial_state :: "int \<Rightarrow> string \<Rightarrow> py_error + assembler_state" where
  "initial_state bpm time_signature =
     (case get_time_signature_value time_signature of
        Inl e \<Rightarrow> Inl e
      | Inr len \<Rightarrow>
          Inr \<lparr>part = [],
               current_measure =
                 measure_insert0 (MetronomeMark bpm)
                   (measure_insert0 (TimeSignature time_signature)
                      \<lparr>number = 1, elements = []\<rparr>),
               current_ts = time_signature,
               measure_length = len,
               measure_duration = 0,
               current_dynamic = None,
               measure_count = 1\<rparr>)"

text \<open>
  \<^verbatim>\<open>
            if measure_count in time_sig_changes and measure_duration == 0:
                new_ts = time_sig_changes[measure_count]
                if new_ts != current_ts:
                    current_ts = new_ts
                    measure_length = get_time_signature_value(current_ts)
                    current_measure.insert(0, meter.TimeSignature(current_ts))
  \<close>
\<close>

definition change_time_signature ::
  "(int \<rightharpoonup> string) \<Rightarrow> assembler_state \<Rightarrow> py_error + assembler_state" where
  "change_time_signature time_sig_changes st =
     (case time_sig_changes (measure_count st) of
        None \<Rightarrow> Inr st
      | Some new_ts \<Rightarrow>
          if measure_duration st = 0 \<and> new_ts \<noteq> current_ts st then
            (case get_time_signature_value new_ts of
               Inl e \<Rightarrow> Inl e
             | Inr len \<Rightarrow>
                 Inr (st\<lparr>current_ts := new_ts, measure_length := len,
                         current_measure :=
                           measure_insert0 (TimeSignature new_ts) (current_measure st)\<rparr>))
          else Inr st)"

text \<open>
  \<^verbatim>\<open>
            remaining_space = measure_length - measure_duration
            if duration > remaining_space and remaining_space > 0:
                adjusted_duration = remaining_space
            else:
                adjusted_duration = duration
  \<close>
\<close>

definition adjusted_duration :: "assembler_state \<Rightarrow> rat \<Rightarrow> rat" where
  "adjusted_duration st duration =
     (let remaining_space = measure_length st - measure_duration st
      in if remaining_space < duration \<and> 0 < remaining_space then remaining_space
         else duration)"

text \<open>
  \<^verbatim>\<open>
            if adjusted_pitch == 'R':
                n = note.Rest(quarterLength=adjusted_duration)
            else:
                n = note.Note(adjusted_pitch, quarterLength=adjusted_duration)
                n.volume.velocity = vel
                if dyn != current_dynamic:
                    dyn_mark = dynamics.Dynamic(dyn)
                    current_measure.append(dyn_mark)
                    current_dynamic = dyn
            current_measure.append(n)
            measure_duration += adjusted_duration
  \<close>
  The desktop variant also attaches an articulation to the note here; it has no
  part in the layout and is left out.
\<close>

definition append_event ::
  "pitch_name \<Rightarrow> rat \<Rightarrow> string \<Rightarrow> int \<Rightarrow> assembler_state \<Rightarrow> assembler_state" where
  "append_event adjusted_pitch adjusted dyn vel st =
     (case adjusted_pitch of
        R \<Rightarrow>
          st\<lparr>current_measure := measure_append (Rest adjusted) (current_measure st),
             measure_duration := measure_duration st + adjusted\<rparr>
      | P p \<Rightarrow>
          (let st1 =
                 (if Some dyn \<noteq> current_dynamic st then
                    st\<lparr>current_measure := measure_append (Dynamic dyn) (current_measure st),
                       current_dynamic := Some dyn\<rparr>
                  else st)
           in st1\<lparr>current_measure := measure_append (Note p adjusted vel None) (current_measure st1),
                  measure_duration := measure_duration st1 + adjusted\<rparr>))"

text \<open>
  \<^verbatim>\<open>
            if measure_duration >= measure_length:
                part.append(current_measure)
                measure_count += 1
                current_measure = stream.Measure(number=len(part.getElementsByClass('Measure')) + 1)
                measure_duration = 0.0
                if duration > adjusted_duration:
                    remaining_duration = duration - adjusted_duration
                    if adjusted_pitch != 'R':
                        remaining_note = note.Note(adjusted_pitch, quarterLength=remaining_duration)
                        remaining_note.volume.velocity = vel
                        n.tie = tie.Tie('start')
                        remaining_note.tie = tie.Tie('stop')
                        current_measure.append(remaining_note)
                        measure_duration += remaining_duration
  \<close>
\<close>

definition close_measure ::
  "pitch_name \<Rightarrow> rat \<Rightarrow> rat \<Rightarrow> int \<Rightarrow> assembler_state \<Rightarrow> assembler_state" where
  "close_measure adjusted_pitch duration adjusted vel st =
     (if measure_length st \<le> measure_duration st then
        (let part1 = part st @ [current_measure st];
             st1 = st\<lparr>part := part1,
                      measure_count := measure_count st + 1,
                      current_measure := \<lparr>number = int (length part1) + 1, elements = []\<rparr>,
                      measure_duration := 0\<rparr>
         in if adjusted < duration then
              (let remaining_duration = duration - adjusted
               in case adjusted_pitch of
                    R \<Rightarrow> st1
                  | P p \<Rightarrow>
                      st1\<lparr>part := butlast part1 @ [tie_last TieStart (last part1)],
                          current_measure :=
                            measure_append (Note p remaining_duration vel (Some TieStop))
                              (current_measure st1),
                          measure_duration := measure_duration st1 + remaining_duration\<rparr>)
            else st1)
      else st)"

text \<open>
  One pass of the loop body for the note \<open>note_data\<close> of the voice \<open>instr_name\<close>. The
  outer \<open>option\<close> is that of \<open>adjust_pitch_to_range\<close>.
\<close>

definition place_note ::
  "string \<Rightarrow> (int \<rightharpoonup> string) \<Rightarrow> assembler_state \<Rightarrow> note_data
     \<Rightarrow> (py_error + assembler_state) option" where
  "place_note instr_name time_sig_changes st note_data =
     (case note_data of (pitch_name, duration, dyn, art, vel) \<Rightarrow>
        (case adjust_pitch_to_range pitch_name instr_name of
           None \<Rightarrow> None
         | Some (Inl e) \<Rightarrow> Some (Inl e)
         | Some (Inr adjusted_pitch) \<Rightarrow>
             (case change_time_signature time_sig_changes st of
                Inl e \<Rightarrow> Some (Inl e)
              | Inr st1 \<Rightarrow>
                  (let adjusted = adjusted_duration st1 duration;
                       st2 = append_event adjusted_pitch adjusted dyn vel st1
                   in Some (Inr (close_measure adjusted_pitch duration adjusted vel st2))))))"

fun place_notes ::
  "string \<Rightarrow> (int \<rightharpoonup> string) \<Rightarrow> assembler_state \<Rightarrow> note_data list
     \<Rightarrow> (py_error + assembler_state) option" where
  "place_notes instr_name time_sig_changes st [] = Some (Inr st)"
| "place_notes instr_name time_sig_changes st (note_data # melody) =
     (case place_note instr_name time_sig_changes st note_data of
        None \<Rightarrow> None
      | Some (Inl e) \<Rightarrow> Some (Inl e)
      | Some (Inr st') \<Rightarrow> place_notes instr_name time_sig_changes st' melody)"

text \<open>
  \<^verbatim>\<open>
        if measure_duration > 0:
            if measure_duration < measure_length:
                rest_duration = measure_length - measure_duration
                current_measure.append(note.Rest(quarterLength=rest_duration))
            part.append(current_measure)
  \<close>
\<close>

definition finish_part :: "assembler_state \<Rightarrow> measure list" where
  "finish_part st =
     (if 0 < measure_duration st then
        (if measure_duration st < measure_length st then
           part st @ [measure_append (Rest (measure_length st - measure_duration st))
                        (current_measure st)]
         else part st @ [current_measure st])
      else part st)"

text \<open>
  \<^verbatim>\<open>
    time_sig_changes = {}
    if time_sig_sequence:
        for measure_num, ts_str in time_sig_sequence:
            time_sig_changes[measure_num] = ts_str
  \<close>
\<close>

definition time_sig_changes_of :: "schedule \<Rightarrow> (int \<rightharpoonup> string)" where
  "time_sig_changes_of time_sig_sequence =
     fold (\<lambda>(measure_num, ts_str) d. d(measure_num \<mapsto> ts_str)) time_sig_sequence Map.empty"

text \<open>
  The body of the loop over the voices of \<^verbatim>\<open>create_score\<close> (and of
  \<^verbatim>\<open>visualize_multi_voice_melody\<close>), up to the call of \<^verbatim>\<open>makeNotation\<close>: the measures of
  one part.
\<close>

definition create_part ::
  "note_data list \<Rightarrow> string \<Rightarrow> int \<Rightarrow> string \<Rightarrow> schedule \<Rightarrow> (py_error + measure list) option" where
  "create_part melody instr_name bpm time_signature time_sig_sequence =
     (case initial_state bpm time_signature of
        Inl e \<Rightarrow> Some (Inl e)
      | Inr st \<Rightarrow>
          (case place_notes instr_name (time_sig_changes_of time_sig_sequence) st melody of
             None \<Rightarrow> None
           | Some (Inl e) \<Rightarrow> Some (Inl e)
           | Some (Inr st') \<Rightarrow> Some (Inr (finish_part st'))))"

text \<open>\<^verbatim>\<open>for melody, instr_name in zip(melodies, instruments)\<close>: one part for each voice.\<close>

fun create_score ::
  "(note_data list \<times> string) list \<Rightarrow> int \<Rightarrow> string \<Rightarrow> schedule
     \<Rightarrow> (py_error + measure list list) option" where
  "create_score [] bpm time_signature time_sig_sequence = Some (Inr [])"
| "create_score ((melody, instr_name) # voices) bpm time_signature time_sig_sequence =
     (case create_part melody instr_name bpm time_signature time_sig_sequence of
        None \<Rightarrow> None
      | Some (Inl e) \<Rightarrow> Some (Inl e)
      | Some (Inr p) \<Rightarrow>
          (case create_score voices bpm time_signature time_sig_sequence of
             None \<Rightarrow> None
           | Some (Inl e) \<Rightarrow> Some (Inl e)
           | Some (Inr ps) \<Rightarrow> Some (Inr (p # ps))))"

text \<open>
  What is read off a finished part: the beats a measure holds (the quarter lengths
  of its notes and rests) and the time signatures written into it.
\<close>

fun element_beats :: "element \<Rightarrow> rat" where
  "element_beats (Note p d v t) = d"
| "element_beats (Rest d) = d"
| "element_beats x = 0"

definition measure_beats :: "measure \<Rightarrow> rat" where
  "measure_beats m = sum_list (map element_beats (elements m))"

fun time_signature_of :: "element \<Rightarrow> string list" where
  "time_signature_of (TimeSignature ts) = [ts]"
| "time_signature_of x = []"

definition measure_time_signatures :: "measure \<Rightarrow> string list" where
  "measure_time_signatures m = concat (map time_signature_of (elements m))"

text \<open>The note C5 of a given length, \<^verbatim>\<open>('C5', d, 'mf', 'normal', 64)\<close>, and a rest.\<close>

definition c5 :: "rat \<Rightarrow> note_data" where
  "c5 d = (P (mk_pitch StepC 0 5), d, ''mf'', ''normal'', 64)"

definition rest_of :: "rat \<Rightarrow> note_data" where
  "rest_of d = (R, d, ''mf'', ''normal'', 64)"

definition measure_summary :: "measure \<Rightarrow> int \<times> rat \<times> string list" where
  "measure_summary m = (number m, measure_beats m, measure_time_signatures m)"

definition score_summary ::
  "(py_error + measure list list) option
     \<Rightarrow> (py_error + (int \<times> rat \<times> string list) list list) option" where
  "score_summary r = map_option (map_sum id (map (map measure_summary))) r"

section \<open>Properties of the quantizer\<close>




















section \<open>Properties of the range normalizer\<close>

lemma midi_octave: "midi (p\<lparr>octave := octave p + d\<rparr>) = midi p + 12 * d"
  by (simp add: midi_def)

text \<open>
  The octave-up loop leaves after \<open>k\<close> iterations, with the pitch \<open>k\<close> octaves higher;
  the measure of the induction is the distance to the lower bound.
\<close>

lemma octave_up_loop_Some:
  "\<exists>k. octave_up_loop lo p = Some (p\<lparr>octave := octave p + int k\<rparr>)
     \<and> lo \<le> midi p + 12 * int k
     \<and> (0 < k \<longrightarrow> midi p + 12 * int k < lo + 12)"
proof (induction "nat (lo - midi p)" arbitrary: p rule: less_induct)
  case less
  show ?case
  proof (cases "midi p < lo")
    case False
    then have "octave_up_loop lo p = Some p" by (simp add: octave_up_loop.simps)
    then show ?thesis using False by (intro exI [of _ 0]) simp
  next
    case True
    let ?p = "p\<lparr>octave := octave p + 1\<rparr>"
    have m: "midi ?p = midi p + 12" by (simp add: midi_def)
    then have "nat (lo - midi ?p) < nat (lo - midi p)" using True by simp
    from less [OF this] obtain k where
      k: "octave_up_loop lo ?p = Some (?p\<lparr>octave := octave ?p + int k\<rparr>)"
         "lo \<le> midi ?p + 12 * int k"
         "0 < k \<longrightarrow> midi ?p + 12 * int k < lo + 12"
      by blast
    have eq: "?p\<lparr>octave := octave ?p + int k\<rparr> = p\<lparr>octave := octave p + int (Suc k)\<rparr>"
      by simp
    have step: "octave_up_loop lo p = octave_up_loop lo ?p"
      using True by (subst octave_up_loop.simps) simp
    have "midi p + 12 * int (Suc k) < lo + 12"
      using True k(3) m by (cases k) simp_all
    moreover have "lo \<le> midi p + 12 * int (Suc k)"
      using k(2) m by simp
    moreover have "octave_up_loop lo p = Some (p\<lparr>octave := octave p + int (Suc k)\<rparr>)"
      using step k(1) eq by simp
    ultimately show ?thesis by blast
  qed
qed

lemma octave_down_loop_Some:
  "\<exists>k. octave_down_loop hi p = Some (p\<lparr>octave := octave p - int k\<rparr>)
     \<and> midi p - 12 * int k \<le> hi
     \<and> (0 < k \<longrightarrow> hi - 12 < midi p - 12 * int k)"
proof (induction "nat (midi p - hi)" arbitrary: p rule: less_induct)
  case less
  show ?case
  proof (cases "hi < midi p")
    case False
    then have "octave_down_loop hi p = Some p" by (simp add: octave_down_loop.simps)
    then show ?thesis using False by (intro exI [of _ 0]) simp
  next
    case True
    let ?p = "p\<lparr>octave := octave p - 1\<rparr>"
    have m: "midi ?p = midi p - 12" by (simp add: midi_def)
    then have "nat (midi ?p - hi) < nat (midi p - hi)" using True by simp
    from less [OF this] obtain k where
      k: "octave_down_loop hi ?p = Some (?p\<lparr>octave := octave ?p - int k\<rparr>)"
         "midi ?p - 12 * int k \<le> hi"
         "0 < k \<longrightarrow> hi - 12 < midi ?p - 12 * int k"
      by blast
    have eq: "?p\<lparr>octave := octave ?p - int k\<rparr> = p\<lparr>octave := octave p - int (Suc k)\<rparr>"
      by simp
    have step: "octave_down_loop hi p = octave_down_loop hi ?p"
      using True by (subst octave_down_loop.simps) simp
    have "hi - 12 < midi p - 12 * int (Suc k)"
      using True k(3) m by (cases k) simp_all
    moreover have "midi p - 12 * int (Suc k) \<le> hi"
      using k(2) m by simp
    moreover have "octave_down_loop hi p = Some (p\<lparr>octave := octave p - int (Suc k)\<rparr>)"
      using step k(1) eq by simp
    ultimately show ?thesis by blast
  qed
qed

text \<open>
  When the range spans at least eleven semitones, the pitch that leaves the second
  loop is inside it: the down-pass stops less than an octave below the upper bound.
\<close>

lemma octave_loops_in_range:
  assumes "lo + 11 \<le> hi"
  shows "\<exists>p' q. octave_up_loop lo p = Some p' \<and> octave_down_loop hi p' = Some q
     \<and> octave_loops lo hi p = Some q \<and> lo \<le> midi q \<and> midi q \<le> hi
     \<and> step q = step p \<and> alter q = alter p"
proof -
  obtain j where j: "octave_up_loop lo p = Some (p\<lparr>octave := octave p + int j\<rparr>)"
      "lo \<le> midi p + 12 * int j"
    using octave_up_loop_Some [of lo p] by blast
  let ?p = "p\<lparr>octave := octave p + int j\<rparr>"
  have mp: "midi ?p = midi p + 12 * int j" by (rule midi_octave)
  obtain k where k: "octave_down_loop hi ?p = Some (?p\<lparr>octave := octave ?p - int k\<rparr>)"
      "midi ?p - 12 * int k \<le> hi" "0 < k \<longrightarrow> hi - 12 < midi ?p - 12 * int k"
    using octave_down_loop_Some [of hi ?p] by blast
  let ?q = "?p\<lparr>octave := octave ?p - int k\<rparr>"
  have mq: "midi ?q = midi ?p - 12 * int k" by (simp add: midi_def)
  have "octave_loops lo hi p = Some ?q"
    using j(1) k(1) by (simp add: octave_loops_def)
  moreover have "lo \<le> midi ?q"
    using assms j(2) k(3) mp mq by (cases "k = 0") auto
  moreover have "midi ?q \<le> hi" using k(2) mq by simp
  ultimately show ?thesis using j(1) k(1) by (intro exI [of _ ?p] exI [of _ ?q]) simp
qed

lemma ranges_wide:
  "\<forall>(name, lo, hi) \<in> set INSTRUMENT_RANGES. midi lo + 11 \<le> midi hi"
  by (simp add: INSTRUMENT_RANGES_def midi_def mk_pitch_def)

lemma instrument_range_total:
  "\<exists>lo hi. instrument_range instrument = Inr (lo, hi) \<and> midi lo + 11 \<le> midi hi"
proof (cases "map_of INSTRUMENT_RANGES (split_first '' #'' instrument)")
  case None
  then show ?thesis
    by (simp add: instrument_range_def INSTRUMENT_RANGES_def midi_def mk_pitch_def)
next
  case (Some r)
  then have "(split_first '' #'' instrument, r) \<in> set INSTRUMENT_RANGES"
    by (rule map_of_SomeD)
  with ranges_wide have "midi (fst r) + 11 \<le> midi (snd r)" by fastforce
  with Some show ?thesis by (cases r) (simp add: instrument_range_def)
qed

text \<open>
  C8: for every pitch and every instrument name, \<open>adjust_pitch_to_range\<close> returns the
  rest symbol unchanged; for a pitch it runs the octave-up loop to its end, then the
  octave-down loop, and returns a pitch of the same step and accidental whose height
  lies within the range looked up for the instrument.
\<close>

theorem adjust_pitch_to_range_in_range:
  "adjust_pitch_to_range R instrument = Some (Inr R)
   \<and> (\<exists>min_p max_p p' q.
        instrument_range instrument = Inr (min_p, max_p)
        \<and> octave_up_loop (midi min_p) p = Some p'
        \<and> octave_down_loop (midi max_p) p' = Some q
        \<and> adjust_pitch_to_range (P p) instrument = Some (Inr (P q))
        \<and> midi min_p \<le> midi q \<and> midi q \<le> midi max_p
        \<and> step q = step p \<and> alter q = alter p)"
proof
  show "adjust_pitch_to_range R instrument = Some (Inr R)"
    by (simp add: adjust_pitch_to_range_def)
next
  obtain min_p max_p where r: "instrument_range instrument = Inr (min_p, max_p)"
      "midi min_p + 11 \<le> midi max_p"
    using instrument_range_total by blast
  from octave_loops_in_range [OF r(2), of p] obtain p' q where
    q: "octave_up_loop (midi min_p) p = Some p'" "octave_down_loop (midi max_p) p' = Some q"
       "octave_loops (midi min_p) (midi max_p) p = Some q"
       "midi min_p \<le> midi q" "midi q \<le> midi max_p" "step q = step p" "alter q = alter p"
    by blast
  have "adjust_pitch_to_range (P p) instrument = Some (Inr (P q))"
    using r(1) q(3) by (simp add: adjust_pitch_to_range_def)
  with r(1) q show "\<exists>min_p max_p p' q.
        instrument_range instrument = Inr (min_p, max_p)
        \<and> octave_up_loop (midi min_p) p = Some p'
        \<and> octave_down_loop (midi max_p) p' = Some q
        \<and> adjust_pitch_to_range (P p) instrument = Some (Inr (P q))
        \<and> midi min_p \<le> midi q \<and> midi q \<le> midi max_p
        \<and> step q = step p \<and> alter q = alter p"
    by blast
qed

text \<open>
  C10: \<open>adjust_pitch_to_range\<close> terminates on every input. For any bounds, the
  octave-up loop leaves after some number \<open>j\<close> of iterations, each of which raises the
  height by 12, with the height at least \<open>lo\<close>; the octave-down loop then leaves after
  some number \<open>k\<close> of iterations, each of which lowers the height by 12, with the height
  at most \<open>hi\<close>.
\<close>

theorem adjust_pitch_to_range_terminates:
  "(\<exists>r. adjust_pitch_to_range note_pitch instrument = Some r)
   \<and> (\<exists>j k. octave_up_loop lo p = Some (p\<lparr>octave := octave p + int j\<rparr>)
        \<and> midi (p\<lparr>octave := octave p + int j\<rparr>) = midi p + 12 * int j
        \<and> lo \<le> midi p + 12 * int j
        \<and> octave_down_loop hi (p\<lparr>octave := octave p + int j\<rparr>)
            = Some (p\<lparr>octave := octave p + int j - int k\<rparr>)
        \<and> midi (p\<lparr>octave := octave p + int j - int k\<rparr>) = midi p + 12 * int j - 12 * int k
        \<and> midi p + 12 * int j - 12 * int k \<le> hi)"
proof
  show "\<exists>r. adjust_pitch_to_range note_pitch instrument = Some r"
  proof (cases note_pitch)
    case R
    then show ?thesis by (simp add: adjust_pitch_to_range_def)
  next
    case (P p0)
    obtain min_p max_p where r: "instrument_range instrument = Inr (min_p, max_p)"
      using instrument_range_total by blast
    obtain j where j: "octave_up_loop (midi min_p) p0 = Some (p0\<lparr>octave := octave p0 + int j\<rparr>)"
      using octave_up_loop_Some [of "midi min_p" p0] by blast
    obtain k where "octave_down_loop (midi max_p) (p0\<lparr>octave := octave p0 + int j\<rparr>)
        = Some (p0\<lparr>octave := octave p0 + int j - int k\<rparr>)"
      using octave_down_loop_Some [of "midi max_p" "p0\<lparr>octave := octave p0 + int j\<rparr>"] by auto
    with P r j show ?thesis
      by (simp add: adjust_pitch_to_range_def octave_loops_def)
  qed
next
  obtain j where j: "octave_up_loop lo p = Some (p\<lparr>octave := octave p + int j\<rparr>)"
      "lo \<le> midi p + 12 * int j"
    using octave_up_loop_Some [of lo p] by blast
  let ?p = "p\<lparr>octave := octave p + int j\<rparr>"
  obtain k where k: "octave_down_loop hi ?p = Some (?p\<lparr>octave := octave ?p - int k\<rparr>)"
      "midi ?p - 12 * int k \<le> hi"
    using octave_down_loop_Some [of hi ?p] by blast
  have e: "?p\<lparr>octave := octave ?p - int k\<rparr> = p\<lparr>octave := octave p + int j - int k\<rparr>"
    by simp
  have "octave_down_loop hi ?p = Some (p\<lparr>octave := octave p + int j - int k\<rparr>)"
    using k(1) e by simp
  moreover have "midi ?p = midi p + 12 * int j" by (simp add: midi_def)
  moreover have "midi (p\<lparr>octave := octave p + int j - int k\<rparr>) = midi p + 12 * int j - 12 * int k"
    by (simp add: midi_def)
  moreover have "midi p + 12 * int j - 12 * int k \<le> hi"
    using k(2) by (simp add: midi_def)
  ultimately show "\<exists>j k. octave_up_loop lo p = Some (p\<lparr>octave := octave p + int j\<rparr>)
        \<and> midi (p\<lparr>octave := octave p + int j\<rparr>) = midi p + 12 * int j
        \<and> lo \<le> midi p + 12 * int j
        \<and> octave_down_loop hi (p\<lparr>octave := octave p + int j\<rparr>)
            = Some (p\<lparr>octave := octave p + int j - int k\<rparr>)
        \<and> midi (p\<lparr>octave := octave p + int j - int k\<rparr>) = midi p + 12 * int j - 12 * int k
        \<and> midi p + 12 * int j - 12 * int k \<le> hi"
    using j by blast
qed

section \<open>Properties of the sequence generator\<close>

lemma bisect_right_le: "lo \<le> hi \<Longrightarrow> bisect_right a x lo hi \<le> hi"
proof (induction a x lo hi rule: bisect_right.induct)
  case (1 a x lo hi)
  show ?case
  proof (cases "lo < hi")
    case False
    with 1(3) show ?thesis by (subst bisect_right.simps) simp
  next
    case lt: True
    let ?mid = "(lo + hi) div 2"
    show ?thesis
    proof (cases "x < a ! ?mid")
      case True
      have "lo \<le> ?mid" using lt by linarith
      from 1(1) [OF lt refl True this] have "bisect_right a x lo ?mid \<le> ?mid" .
      moreover have "?mid \<le> hi" using lt by linarith
      ultimately show ?thesis using lt True
        by (subst bisect_right.simps) (simp add: Let_def)
    next
      case False
      have "?mid + 1 \<le> hi" using lt by linarith
      from 1(2) [OF lt refl False this] lt False
      show ?thesis by (subst bisect_right.simps) (simp add: Let_def)
    qed
  qed
qed

lemma length_accumulate: "length (accumulate acc ws) = length ws"
  by (induction ws arbitrary: acc) auto

lemma last_accumulate: "ws \<noteq> [] \<Longrightarrow> last (accumulate acc ws) = acc + sum_list ws"
proof (induction ws arbitrary: acc)
  case Nil
  then show ?case by simp
next
  case (Cons w ws)
  show ?case
  proof (cases ws)
    case Nil
    then show ?thesis by simp
  next
    case (Cons v vs)
    then have "accumulate (acc + w) ws \<noteq> []" by simp
    then show ?thesis using Cons.IH [of "acc + w"] Cons by (simp add: add.assoc)
  qed
qed

lemma random_choice_Inr:
  "seq \<noteq> [] \<Longrightarrow> \<exists>x g'. random_choice seq g = Inr (x, g') \<and> x \<in> set seq"
  by (simp add: random_choice_def rng_draw_def)

lemma random_choices_Inr:
  assumes "population \<noteq> []" "length weights = length population" "0 < sum_list weights"
  shows "\<exists>x g'. random_choices population weights g = Inr (x, g') \<and> x \<in> set population"
proof -
  let ?cum = "accumulate 0 weights"
  have w: "weights \<noteq> []" using assms(1,2) by auto
  have len: "length ?cum = length population" using assms(2) by (simp add: length_accumulate)
  have ne: "?cum \<noteq> []" using len assms(1) by auto
  have tot: "last ?cum = sum_list weights" using last_accumulate [OF w, of 0] by simp
  obtain u g' where u: "random_random g = (u, g')" by (cases "random_random g")
  let ?i = "bisect_right ?cum (u * sum_list weights) 0 (length population - 1)"
  have "?i \<le> length population - 1" by (rule bisect_right_le) simp
  then have "?i < length population" using assms(1) by (cases population) auto
  then have "population ! ?i \<in> set population" by simp
  moreover have "random_choices population weights g = Inr (population ! ?i, g')"
    using len ne tot assms(3) u by (simp add: random_choices_def Let_def)
  ultimately show ?thesis by blast
qed

lemma generate_step_Inr:
  assumes "matrix \<noteq> []" "rows_sampleable matrix"
  shows "\<exists>s g'. generate_step matrix current_state g = Inr (s, g')
     \<and> s \<in> matrix_keys matrix \<union> matrix_successors matrix"
proof (cases "map_of matrix current_state")
  case None
  from assms(1) have "map fst matrix \<noteq> []" by simp
  from random_choice_Inr [OF this, of g] None show ?thesis
    by (auto simp: generate_step_def matrix_keys_def)
next
  case (Some row)
  then have mem: "(current_state, row) \<in> set matrix" by (rule map_of_SomeD)
  with assms(2) have "row \<noteq> []" "0 < sum_list (map snd row)"
    by (auto simp: rows_sampleable_def list_all_iff)
  then obtain s g' where s: "random_choices (map fst row) (map snd row) g = Inr (s, g')"
      "s \<in> set (map fst row)"
    using random_choices_Inr [of "map fst row" "map snd row" g] by auto
  from s(2) mem have "s \<in> matrix_successors matrix"
    by (force simp: matrix_successors_def)
  with s(1) Some show ?thesis by (simp add: generate_step_def)
qed

lemma generate_loop_Inr:
  assumes "matrix \<noteq> []" "rows_sampleable matrix"
  shows "\<exists>rest g'. generate_loop n matrix current_state g = Inr (rest, g')
     \<and> length rest = n \<and> set rest \<subseteq> matrix_keys matrix \<union> matrix_successors matrix"
proof (induction n arbitrary: current_state g)
  case 0
  show ?case by simp
next
  case (Suc n)
  obtain s g1 where s: "generate_step matrix current_state g = Inr (s, g1)"
      "s \<in> matrix_keys matrix \<union> matrix_successors matrix"
    using generate_step_Inr [OF assms] by blast
  obtain rest g2 where r: "generate_loop n matrix s g1 = Inr (rest, g2)"
      "length rest = n" "set rest \<subseteq> matrix_keys matrix \<union> matrix_successors matrix"
    using Suc.IH by blast
  have "generate_loop (Suc n) matrix current_state g = Inr (s # rest, g2)"
    using s(1) r(1) by simp
  with s(2) r(2,3) show ?case by simp
qed

text \<open>
  C4, amended: for every non-empty matrix whose rows can be sampled (no row is empty
  and every row has a positive total weight, as after training), every requested
  length \<open>n \<ge> 1\<close> and every random source, \<open>_generate_sequence\<close> returns exactly \<open>n\<close>
  symbols; the first is a key of the matrix and each one is a key or a successor
  listed in a row.
\<close>

theorem generate_sequence_length_members:
  assumes "matrix \<noteq> []" "1 \<le> n" "rows_sampleable matrix"
  shows "\<exists>seq g'. generate_sequence n matrix g = Inr (seq, g')
     \<and> int (length seq) = n
     \<and> hd seq \<in> matrix_keys matrix
     \<and> set seq \<subseteq> matrix_keys matrix \<union> matrix_successors matrix"
proof -
  from assms(1) have "map fst matrix \<noteq> []" by simp
  then obtain c g1 where c: "random_choice (map fst matrix) g = Inr (c, g1)"
      "c \<in> matrix_keys matrix"
    using random_choice_Inr [of "map fst matrix" g] by (auto simp: matrix_keys_def)
  obtain rest g2 where r: "generate_loop (nat (n - 1)) matrix c g1 = Inr (rest, g2)"
      "length rest = nat (n - 1)" "set rest \<subseteq> matrix_keys matrix \<union> matrix_successors matrix"
    using generate_loop_Inr [OF assms(1,3)] by blast
  have "generate_sequence n matrix g = Inr (c # rest, g2)"
    using assms(1) c(1) r(1) by (simp add: generate_sequence_def)
  moreover have "int (length (c # rest)) = n" using r(2) assms(2) by simp
  ultimately show ?thesis using c(2) r(3) by (intro exI [of _ "c # rest"] exI [of _ g2]) simp
qed

theorem generate_sequence_length_members_witness:
  "\<exists>seq g'. generate_sequence 2 [(''A'', [(''B'', 1)])] (const_rng 0) = Inr (seq, g')
     \<and> int (length seq) = 2
     \<and> hd seq \<in> matrix_keys [(''A'', [(''B'', 1)])]
     \<and> set seq \<subseteq> matrix_keys [(''A'', [(''B'', 1)])] \<union> matrix_successors [(''A'', [(''B'', 1)])]"
  using generate_sequence_length_members [of "[(''A'', [(''B'', 1)])]" 2 "const_rng 0"]
  by (simp add: rows_sampleable_def)

text \<open>
  C4, as stated, fails. For the requested length 0 the seed symbol is still returned
  (one symbol, not none). On the matrix \<open>{'A': {'B': 1}}\<close> the second symbol is \<open>'B'\<close>,
  a successor that is not a key. A matrix with an empty row is not empty, and
  sampling the row raises \<open>IndexError\<close>.
\<close>

theorem generate_sequence_counterexample:
  "map_sum id fst (generate_sequence 0 [(''A'', [(''B'', 1)])] (const_rng 0)) = Inr [''A'']
   \<and> map_sum id fst (generate_sequence 2 [(''A'', [(''B'', 1)])] (const_rng 0)) = Inr [''A'', ''B'']
   \<and> ''B'' \<notin> matrix_keys [(''A'', [(''B'', 1 :: rat)])]
   \<and> map_sum id fst (generate_sequence 2 [(''A'', [])] (const_rng 0)) = Inl IndexError"
  by code_simp

section \<open>Properties of the meter schedule generator\<close>

lemma other_sigs_nonempty:
  "filter (\<lambda>sig. sig \<noteq> c) available_time_sigs \<noteq> []"
  by (auto simp: available_time_sigs_def)

lemma schedule_step_later:
  assumes "1 < m"
  shows "\<exists>g'. schedule_step m (seq, cur, g) = Inr (seq, cur, g')
       \<or> (\<exists>new. new \<noteq> cur \<and> schedule_step m (seq, cur, g) = Inr (seq @ [(m, new)], new, g'))"
proof -
  obtain u g1 where u: "random_random g = (u, g1)" by (cases "random_random g")
  show ?thesis
  proof (cases "u < 15 / 100")
    case False
    with assms u have "schedule_step m (seq, cur, g) = Inr (seq, cur, g1)"
      by (simp add: schedule_step_def)
    then show ?thesis by blast
  next
    case True
    let ?other = "filter (\<lambda>sig. sig \<noteq> cur) available_time_sigs"
    obtain new g2 where c: "random_choice ?other g1 = Inr (new, g2)" "new \<in> set ?other"
      using random_choice_Inr [OF other_sigs_nonempty, of cur g1] by blast
    from c(2) have "new \<noteq> cur" by simp
    moreover have "schedule_step m (seq, cur, g) = Inr (seq @ [(m, new)], new, g2)"
      using assms u True c(1) by (simp add: schedule_step_def)
    ultimately show ?thesis by blast
  qed
qed

lemma sorted_wrt_le_last:
  "sorted_wrt (<) (xs :: int list) \<Longrightarrow> x \<in> set xs \<Longrightarrow> x \<le> last xs"
proof (induction xs)
  case Nil
  then show ?case by simp
next
  case (Cons a xs)
  show ?case
  proof (cases "xs = []")
    case True
    with Cons.prems show ?thesis by simp
  next
    case False
    then have "last xs \<in> set xs" by simp
    with Cons.prems(1) have "a < last xs" by simp
    moreover have "x \<in> set xs \<Longrightarrow> x \<le> last xs"
      using Cons.IH Cons.prems(1) by simp
    ultimately show ?thesis using Cons.prems(2) False by auto
  qed
qed

lemma schedule_inv_snoc:
  assumes "schedule_inv base seq cur" "new \<noteq> cur" "fst (last seq) < m"
  shows "schedule_inv base (seq @ [(m, new)]) new"
proof -
  from assms(1) have ne: "seq \<noteq> []" and hd: "hd seq = (1, base)"
    and l: "snd (last seq) = cur" and s: "sorted_wrt (<) (map fst seq)"
    and d: "distinct_adj (map snd seq)"
    by (simp_all add: schedule_inv_def)
  have "\<forall>x \<in> set (map fst seq). x \<le> last (map fst seq)"
    using s by (blast intro: sorted_wrt_le_last)
  then have "\<forall>x \<in> set (map fst seq). x \<le> fst (last seq)"
    using ne by (simp add: last_map)
  then have "\<forall>x \<in> set (map fst seq). x < m" using assms(3) by auto
  then have s': "sorted_wrt (<) (map fst (seq @ [(m, new)]))"
    using s by (simp add: sorted_wrt_append)
  have "last (map snd seq) \<noteq> new" using l ne assms(2) by (simp add: last_map)
  then have d': "distinct_adj (map snd (seq @ [(m, new)]))"
    using d ne by (simp add: distinct_adj_append_iff)
  show ?thesis using ne hd s' d' by (simp add: schedule_inv_def)
qed

lemma schedule_loop_inv:
  assumes "schedule_inv base seq cur" "sorted_wrt (<) ms"
    "\<forall>m \<in> set ms. 1 < m \<and> fst (last seq) < m"
  shows "\<exists>seq' cur' g'. schedule_loop ms (seq, cur, g) = Inr (seq', cur', g')
     \<and> schedule_inv base seq' cur'"
  using assms
proof (induction ms arbitrary: seq cur g)
  case Nil
  then show ?case by simp
next
  case (Cons m ms)
  from Cons.prems(3) have m: "1 < m" "fst (last seq) < m" by simp_all
  from Cons.prems(2) have sorted: "sorted_wrt (<) ms" and above: "\<forall>x \<in> set ms. m < x"
    by simp_all
  from schedule_step_later [OF m(1), of seq cur g] obtain g1 where
    step: "schedule_step m (seq, cur, g) = Inr (seq, cur, g1)
       \<or> (\<exists>new. new \<noteq> cur \<and> schedule_step m (seq, cur, g) = Inr (seq @ [(m, new)], new, g1))"
    by blast
  then show ?case
  proof
    assume same: "schedule_step m (seq, cur, g) = Inr (seq, cur, g1)"
    have "\<forall>x \<in> set ms. 1 < x \<and> fst (last seq) < x" using Cons.prems(3) by simp
    from Cons.IH [OF Cons.prems(1) sorted this, of g1] same show ?thesis by simp
  next
    assume "\<exists>new. new \<noteq> cur \<and> schedule_step m (seq, cur, g) = Inr (seq @ [(m, new)], new, g1)"
    then obtain new where new: "new \<noteq> cur"
        "schedule_step m (seq, cur, g) = Inr (seq @ [(m, new)], new, g1)"
      by blast
    have inv: "schedule_inv base (seq @ [(m, new)]) new"
      using Cons.prems(1) new(1) m(2) by (rule schedule_inv_snoc)
    have "\<forall>x \<in> set ms. 1 < x \<and> fst (last (seq @ [(m, new)])) < x"
      using above m(1) by auto
    from Cons.IH [OF inv sorted this, of g1] new(2) show ?thesis by simp
  qed
qed

text \<open>
  C9, amended: for every base meter, every measure count of at least 1 and every
  random source, \<open>generate_time_signature_sequence\<close> with random changes enabled
  returns a schedule whose first entry is \<open>(1, base)\<close>, whose measure numbers are
  strictly increasing, and in which no entry's meter equals the meter of the entry
  before it.
\<close>

theorem generate_time_signature_sequence_schedule:
  assumes "1 \<le> num_measures"
  shows "\<exists>seq g'. generate_time_signature_sequence base_time_sig num_measures True g = Inr (seq, g')
     \<and> seq \<noteq> [] \<and> hd seq = (1, base_time_sig)
     \<and> sorted_wrt (<) (map fst seq) \<and> distinct_adj (map snd seq)"
proof -
  have upto: "[1..num_measures] = 1 # [2..num_measures]"
    using assms by (simp add: upto_rec1)
  have first: "schedule_step 1 ([], base_time_sig, g) = Inr ([(1, base_time_sig)], base_time_sig, g)"
    by (simp add: schedule_step_def)
  have inv: "schedule_inv base_time_sig [(1, base_time_sig)] base_time_sig"
    by (simp add: schedule_inv_def)
  have "\<forall>m \<in> set [2..num_measures]. 1 < m \<and> fst (last [(1, base_time_sig)]) < m"
    by simp
  from schedule_loop_inv [OF inv _ this, of g] obtain seq cur g' where
    r: "schedule_loop [2..num_measures] ([(1, base_time_sig)], base_time_sig, g) = Inr (seq, cur, g')"
       "schedule_inv base_time_sig seq cur"
    by auto
  have "generate_time_signature_sequence base_time_sig num_measures True g = Inr (seq, g')"
    using upto first r(1) by (simp add: generate_time_signature_sequence_def)
  with r(2) show ?thesis by (auto simp: schedule_inv_def)
qed

theorem generate_time_signature_sequence_schedule_witness:
  "\<exists>seq g'. generate_time_signature_sequence ''4/4'' 6 True (const_rng 0) = Inr (seq, g')
     \<and> seq \<noteq> [] \<and> hd seq = (1, ''4/4'')
     \<and> sorted_wrt (<) (map fst seq) \<and> distinct_adj (map snd seq)"
  using generate_time_signature_sequence_schedule [of 6 "''4/4''" "const_rng 0"] by simp

text \<open>
  C9, as stated, fails for a measure count below 1: the loop body never runs and the
  schedule is empty, so it has no first entry.
\<close>

theorem generate_time_signature_sequence_counterexample:
  "map_sum id fst (generate_time_signature_sequence ''4/4'' 0 True (const_rng 0)) = Inr []"
  by code_simp

section \<open>Properties of the trainer\<close>

lemma set_update_subset: "set (AList.update k v al) \<subseteq> insert (k, v) (set al)"
  by (induction al) auto

lemma list_all_update:
  "Q (k, v) \<Longrightarrow> list_all Q al \<Longrightarrow> list_all Q (AList.update k v al)"
  by (induction al) auto

lemma sum_list_pos_rat:
  "xs \<noteq> [] \<Longrightarrow> \<forall>x \<in> set xs. 0 < x \<Longrightarrow> 0 < sum_list (xs :: rat list)"
proof (induction xs)
  case Nil
  then show ?case by simp
next
  case (Cons a xs)
  then have "0 < a" "0 \<le> sum_list xs"
    by (auto intro: sum_list_nonneg less_imp_le)
  then show ?case by simp
qed

lemma counted_row_update:
  assumes "list_all (\<lambda>(k, v). 0 < v) (row :: ('k \<times> rat) list)"
  shows "list_all (\<lambda>(k, v). 0 < v) (AList.update b (dict_get row b 0 + 1) row)"
proof -
  have "0 \<le> dict_get row b 0"
  proof (cases "map_of row b")
    case None
    then show ?thesis by (simp add: dict_get_def)
  next
    case (Some v)
    then have "(b, v) \<in> set row" by (rule map_of_SomeD)
    with assms have "0 < v" by (auto simp: list_all_iff)
    with Some show ?thesis by (simp add: dict_get_def)
  qed
  then have "0 < dict_get row b 0 + 1" by simp
  with assms set_update_subset [of b "dict_get row b 0 + 1" row] show ?thesis
    by (auto simp: list_all_iff)
qed

lemma rows_counted_count_transition:
  assumes "rows_counted matrix"
  shows "rows_counted (count_transition matrix a b)"
proof -
  let ?row = "dict_get matrix a []"
  let ?row' = "AList.update b (dict_get ?row b 0 + 1) ?row"
  have "list_all (\<lambda>(k, v). 0 < v) ?row"
  proof (cases "map_of matrix a")
    case None
    then show ?thesis by (simp add: dict_get_def)
  next
    case (Some r)
    then have "(a, r) \<in> set matrix" by (rule map_of_SomeD)
    with assms have "list_all (\<lambda>(k, v). 0 < v) r"
      by (auto simp: rows_counted_def list_all_iff)
    with Some show ?thesis by (simp add: dict_get_def)
  qed
  then have "list_all (\<lambda>(k, v). 0 < v) ?row'" by (rule counted_row_update)
  moreover have "?row' \<noteq> []" by simp
  ultimately have "(\<lambda>(s, row). row \<noteq> [] \<and> list_all (\<lambda>(k, v). 0 < v) row) (a, ?row')"
    by simp
  then have "list_all (\<lambda>(s, row). row \<noteq> [] \<and> list_all (\<lambda>(k, v). 0 < v) row)
      (AList.update a ?row' matrix)"
    using assms unfolding rows_counted_def by (rule list_all_update)
  then show ?thesis
    unfolding rows_counted_def count_transition_def Let_def .
qed

lemma rows_counted_fold:
  "rows_counted matrix \<Longrightarrow>
     rows_counted (fold (\<lambda>i m. count_transition m (f i) (h i)) idxs matrix)"
proof (induction idxs arbitrary: matrix)
  case Nil
  then show ?case by simp
next
  case (Cons i idxs)
  from Cons.prems have "rows_counted (count_transition matrix (f i) (h i))"
    by (rule rows_counted_count_transition)
  then have "rows_counted (fold (\<lambda>i m. count_transition m (f i) (h i)) idxs
      (count_transition matrix (f i) (h i)))"
    by (rule Cons.IH)
  then show ?case by simp
qed

lemma rows_counted_transition_counts:
  "rows_counted matrix \<Longrightarrow> rows_counted (transition_counts ord matrix notes)"
  unfolding transition_counts_def by (rule rows_counted_fold)

lemma axis_counted_count_separate:
  assumes "axis_counted ms"
  shows "axis_counted (count_separate notes i ms)"
proof -
  obtain pm dm vm where ms: "ms = (pm, dm, vm)" by (cases ms)
  from assms have c: "rows_counted pm" "rows_counted dm" "rows_counted vm"
    unfolding ms axis_counted_def by simp_all
  have "count_separate notes i ms =
      (count_transition pm (pitch_of (notes ! i)) (pitch_of (notes ! (i + 1))),
       count_transition dm (duration_of (notes ! i)) (duration_of (notes ! (i + 1))),
       count_transition vm (velocity_of (notes ! i)) (velocity_of (notes ! (i + 1))))"
    unfolding ms count_separate_def Let_def by simp
  moreover note c [THEN rows_counted_count_transition]
  ultimately show ?thesis unfolding axis_counted_def by simp
qed


lemma axis_counted_fold:
  "axis_counted ms \<Longrightarrow> axis_counted (fold (count_separate notes) idxs ms)"
proof (induction idxs arbitrary: ms)
  case Nil
  then show ?case by simp
next
  case (Cons i idxs)
  from Cons.prems have "axis_counted (count_separate notes i ms)"
    by (rule axis_counted_count_separate)
  then have "axis_counted (fold (count_separate notes) idxs (count_separate notes i ms))"
    by (rule Cons.IH)
  then show ?case by simp
qed

lemma axis_counted_separate_counts:
  "axis_counted ms \<Longrightarrow> axis_counted (separate_counts ms notes)"
  unfolding separate_counts_def by (rule axis_counted_fold)

lemma rows_counted_total_positive:
  "rows_counted matrix \<Longrightarrow> rows_total_positive matrix"
proof -
  have "0 < sum_list (map snd row)"
    if "row \<noteq> []" "list_all (\<lambda>(k, v). 0 < v) row" for row :: "('b \<times> rat) list"
    using that by (intro sum_list_pos_rat) (auto simp: list_all_iff)
  then show "rows_counted matrix \<Longrightarrow> rows_total_positive matrix"
    unfolding rows_counted_def rows_total_positive_def list_all_iff by fast
qed



lemma sum_list_normalized:
  "sum_list (map snd (map (\<lambda>(k, v). (k, v / t)) (row :: ('k \<times> rat) list)))
     = sum_list (map snd row) / t"
  by (induction row) (auto simp: add_divide_distrib)

lemma normalize_row_one:
  assumes "0 < sum_list (map snd row)"
  shows "\<exists>row'. normalize_row row = Inr row' \<and> sum_list (map snd row') = 1"
  using assms by (simp add: normalize_row_def Let_def sum_list_normalized del: map_map)

lemma normalize_matrix_one:
  "rows_total_positive matrix \<Longrightarrow>
     \<exists>m. normalize_matrix matrix = Inr m \<and> rows_sum_to_one m"
proof (induction matrix)
  case Nil
  then show ?case by (simp add: rows_sum_to_one_def)
next
  case (Cons sr matrix)
  obtain s row where sr: "sr = (s, row)" by (cases sr)
  from Cons.prems sr have pos: "0 < sum_list (map snd row)" and rest: "rows_total_positive matrix"
    by (simp_all add: rows_total_positive_def)
  from normalize_row_one [OF pos] obtain row' where
    r: "normalize_row row = Inr row'" "sum_list (map snd row') = 1" by blast
  from Cons.IH [OF rest] obtain m where
    m: "normalize_matrix matrix = Inr m" "rows_sum_to_one m" by blast
  have "normalize_matrix (sr # matrix) = Inr ((s, row') # m)"
    using sr r(1) m(1) by simp
  moreover have "rows_sum_to_one ((s, row') # m)"
    using r(2) m(2) by (simp add: rows_sum_to_one_def)
  ultimately show ?case by blast
qed

lemma initial_counts_positive:
  "list_all (\<lambda>(k, v). 0 < v) probs \<Longrightarrow>
     list_all (\<lambda>(k, v). 0 < v) (initial_counts ord probs notes)"
proof -
  have "list_all (\<lambda>(k, v). 0 < v) d \<Longrightarrow>
      list_all (\<lambda>(k, v). 0 < v)
        (fold (\<lambda>i d. let state = take ord (drop i notes)
                  in AList.update state (dict_get d state 0 + 1) d) idxs d)"
    for idxs and d :: "note_data list table"
    by (induction idxs arbitrary: d) (simp_all add: Let_def counted_row_update)
  then show "list_all (\<lambda>(k, v). 0 < v) probs \<Longrightarrow>
     list_all (\<lambda>(k, v). 0 < v) (initial_counts ord probs notes)"
    unfolding initial_counts_def .
qed

lemma normalize_row_counted:
  assumes "list_all (\<lambda>(k, v). 0 < v) (row :: ('k \<times> rat) list)"
  shows "\<exists>row'. normalize_row row = Inr row'"
proof (cases "row = []")
  case True
  then show ?thesis by (simp add: normalize_row_def)
next
  case False
  with assms have "0 < sum_list (map snd row)"
    by (intro sum_list_pos_rat) (auto simp: list_all_iff)
  then show ?thesis by (simp add: normalize_row_def Let_def)
qed

text \<open>
  C5: after \<open>train\<close> is called once, on a fresh generator and a non-empty corpus, it
  returns (no division by zero); every row of the joint transition matrix and of the
  pitch, duration and velocity matrices has a strictly positive total before
  normalisation, the trained matrices are the normalised count matrices, and every
  row of each trained matrix sums to exactly 1.
\<close>

theorem train_rows_normalized:
  assumes "notes \<noteq> []" "sts \<noteq> []"
  shows "\<exists>gen0 gen pm dm vm.
     init_generator sts ord = Inr gen0 \<and> train gen0 notes = Inr gen
     \<and> separate_counts ([], [], []) notes = (pm, dm, vm)
     \<and> rows_total_positive (transition_counts ord [] notes)
     \<and> rows_total_positive pm \<and> rows_total_positive dm \<and> rows_total_positive vm
     \<and> normalize_matrix (transition_counts ord [] notes) = Inr (transition_matrix gen)
     \<and> normalize_matrix pm = Inr (pitch_matrix gen)
     \<and> normalize_matrix dm = Inr (duration_matrix gen)
     \<and> normalize_matrix vm = Inr (velocity_matrix gen)
     \<and> rows_sum_to_one (transition_matrix gen) \<and> rows_sum_to_one (pitch_matrix gen)
     \<and> rows_sum_to_one (duration_matrix gen) \<and> rows_sum_to_one (velocity_matrix gen)"
proof -
  define gen0 where "gen0 = \<lparr>states = sts, order = ord, initial_probabilities = [],
      transition_matrix = [], pitch_matrix = [], duration_matrix = [], velocity_matrix = []\<rparr>"
  have init: "init_generator sts ord = Inr gen0"
    using assms(2) by (simp add: init_generator_def gen0_def)
  have "list_all (\<lambda>(k, v). 0 < v) (initial_counts ord [] notes)"
    by (rule initial_counts_positive) simp
  then obtain probs where probs: "normalize_row (initial_counts ord [] notes) = Inr probs"
    using normalize_row_counted by blast
  define gen1 where "gen1 = gen0\<lparr>initial_probabilities := probs\<rparr>"
  have s1: "calculate_initial_probabilities gen0 notes = Inr gen1"
    using probs by (simp add: calculate_initial_probabilities_def gen0_def gen1_def)
  have tpos: "rows_total_positive (transition_counts ord [] notes)"
    by (intro rows_counted_total_positive rows_counted_transition_counts) (simp add: rows_counted_def)
  then obtain tm where tm: "normalize_matrix (transition_counts ord [] notes) = Inr tm"
      "rows_sum_to_one tm"
    using normalize_matrix_one by blast
  define gen2 where "gen2 = gen1\<lparr>transition_matrix := tm\<rparr>"
  have s2: "calculate_transition_matrix gen1 notes = Inr gen2"
    using tm(1) by (simp add: calculate_transition_matrix_def gen0_def gen1_def gen2_def)
  obtain pm dm vm where sep: "separate_counts ([], [], []) notes = (pm, dm, vm)"
    by (cases "separate_counts ([], [], []) notes")
  have "axis_counted (separate_counts ([], [], []) notes)"
    by (rule axis_counted_separate_counts) (simp add: axis_counted_def rows_counted_def)
  then have "rows_counted pm" "rows_counted dm" "rows_counted vm"
    unfolding sep axis_counted_def by simp_all
  then have pos: "rows_total_positive pm" "rows_total_positive dm" "rows_total_positive vm"
    by (simp_all add: rows_counted_total_positive)
  obtain pm' where pm': "normalize_matrix pm = Inr pm'" "rows_sum_to_one pm'"
    using normalize_matrix_one [OF pos(1)] by blast
  obtain dm' where dm': "normalize_matrix dm = Inr dm'" "rows_sum_to_one dm'"
    using normalize_matrix_one [OF pos(2)] by blast
  obtain vm' where vm': "normalize_matrix vm = Inr vm'" "rows_sum_to_one vm'"
    using normalize_matrix_one [OF pos(3)] by blast
  define gen where "gen = gen2\<lparr>pitch_matrix := pm', duration_matrix := dm',
      velocity_matrix := vm'\<rparr>"
  have s3: "calculate_separate_matrices gen2 notes = Inr gen"
    using sep pm'(1) dm'(1) vm'(1)
    by (simp add: calculate_separate_matrices_def gen0_def gen1_def gen2_def gen_def)
  have tr: "train gen0 notes = Inr gen"
    using assms(1) s1 s2 s3 by (simp add: train_def)
  have fields: "transition_matrix gen = tm" "pitch_matrix gen = pm'"
      "duration_matrix gen = dm'" "velocity_matrix gen = vm'"
    by (simp_all add: gen_def gen2_def gen1_def gen0_def)
  show ?thesis
    using init tr sep tpos pos tm pm' dm' vm' unfolding fields [symmetric]
    by blast
qed

theorem train_rows_normalized_witness:
  "\<exists>gen0 gen pm dm vm.
     init_generator sample_corpus 1 = Inr gen0 \<and> train gen0 sample_corpus = Inr gen
     \<and> separate_counts ([], [], []) sample_corpus = (pm, dm, vm)
     \<and> rows_total_positive (transition_counts 1 [] sample_corpus)
     \<and> rows_total_positive pm \<and> rows_total_positive dm \<and> rows_total_positive vm
     \<and> normalize_matrix (transition_counts 1 [] sample_corpus) = Inr (transition_matrix gen)
     \<and> normalize_matrix pm = Inr (pitch_matrix gen)
     \<and> normalize_matrix dm = Inr (duration_matrix gen)
     \<and> normalize_matrix vm = Inr (velocity_matrix gen)
     \<and> rows_sum_to_one (transition_matrix gen) \<and> rows_sum_to_one (pitch_matrix gen)
     \<and> rows_sum_to_one (duration_matrix gen) \<and> rows_sum_to_one (velocity_matrix gen)"
  using train_rows_normalized [of sample_corpus sample_corpus 1]
  by (simp add: sample_corpus_def)

section \<open>The layout assembler on three inputs\<close>

text \<open>
  C1 (the running measure duration never exceeds the capacity of the active meter,
  and a measure is closed exactly when it reaches that capacity) does not hold of the
  code. Under 2/4 the capacity is 2 beats. A note of 4 beats fills measure 1 with a
  fragment of 2 beats, and the remainder of 2 beats is put into measure 2 without a
  second split and without closing that measure, although it is full. The next note
  of 1 beat is appended to it whole: measure 2 is closed holding 3 beats.
\<close>

theorem create_score_measure_overflow:
  "get_time_signature_value ''2/4'' = Inr 2
   \<and> create_score [([c5 4], ''Piano'')] 120 ''2/4'' [] =
       Some (Inr [[\<lparr>number = 1, elements =
                    [MetronomeMark 120, TimeSignature ''2/4'', Dynamic ''mf'',
                     Note (mk_pitch StepC 0 5) 2 64 (Some TieStart)]\<rparr>,
                  \<lparr>number = 2, elements =
                    [Note (mk_pitch StepC 0 5) 2 64 (Some TieStop)]\<rparr>]])
   \<and> create_score [([c5 4, c5 1], ''Piano'')] 120 ''2/4'' [] =
       Some (Inr [[\<lparr>number = 1, elements =
                    [MetronomeMark 120, TimeSignature ''2/4'', Dynamic ''mf'',
                     Note (mk_pitch StepC 0 5) 2 64 (Some TieStart)]\<rparr>,
                  \<lparr>number = 2, elements =
                    [Note (mk_pitch StepC 0 5) 2 64 (Some TieStop),
                     Note (mk_pitch StepC 0 5) 1 64 None]\<rparr>]])
   \<and> score_summary (create_score [([c5 4, c5 1], ''Piano'')] 120 ''2/4'' []) =
       Some (Inr [[(1, 2, [''2/4'']), (2, 3, [])]])"
  by code_simp

text \<open>
  C2 (an event longer than the positive remaining space is placed in full, a rest as
  two untied rest fragments) does not hold of the code. Under 4/4, after a note of
  3 beats, a rest of 2 beats is cut to the remaining 1 beat and measure 1 is closed;
  its second beat is placed nowhere, and measure 2 starts with the next note. A
  pitched note in the same position is carried over: its remainder opens measure 2,
  tied to the first fragment.
\<close>

theorem create_score_rest_remainder_dropped:
  "create_score [([c5 3, rest_of 2, c5 4], ''Piano'')] 120 ''4/4'' [] =
       Some (Inr [[\<lparr>number = 1, elements =
                    [MetronomeMark 120, TimeSignature ''4/4'', Dynamic ''mf'',
                     Note (mk_pitch StepC 0 5) 3 64 None, Rest 1]\<rparr>,
                  \<lparr>number = 2, elements =
                    [Note (mk_pitch StepC 0 5) 4 64 None]\<rparr>]])
   \<and> create_score [([c5 3, c5 2, c5 3], ''Piano'')] 120 ''4/4'' [] =
       Some (Inr [[\<lparr>number = 1, elements =
                    [MetronomeMark 120, TimeSignature ''4/4'', Dynamic ''mf'',
                     Note (mk_pitch StepC 0 5) 3 64 None,
                     Note (mk_pitch StepC 0 5) 1 64 (Some TieStart)]\<rparr>,
                  \<lparr>number = 2, elements =
                    [Note (mk_pitch StepC 0 5) 1 64 (Some TieStop),
                     Note (mk_pitch StepC 0 5) 3 64 None]\<rparr>]])"
  by code_simp

text \<open>
  C3 (under the schedule \<open>{1: 4/4, 5: 3/4}\<close> measures 5 to 8 have capacity 3) does not
  hold of the code. The change is applied only while the running duration is 0. When
  the last note of measure 4 is split, its tied remainder opens measure 5, the
  running duration is not 0 at any note of measure 5, and the change is never
  applied: measures 5 to 8 are closed at 4 beats and no measure carries 3/4. When
  measure 5 starts empty the change is applied.
\<close>

theorem create_score_scheduled_change_skipped:
  "score_summary (create_score [([c5 4, c5 4, c5 4, c5 3, c5 2, c5 3, c5 4, c5 4, c5 4], ''Piano'')] 120 ''4/4'' [(1, ''4/4''), (5, ''3/4'')]) =
     Some (Inr [[(1, 4, [''4/4'']), (2, 4, []), (3, 4, []), (4, 4, []),
                (5, 4, []), (6, 4, []), (7, 4, []), (8, 4, [])]])
   \<and> score_summary (create_score [([c5 4, c5 4, c5 4, c5 4, c5 3, c5 3, c5 3, c5 3], ''Piano'')] 120 ''4/4'' [(1, ''4/4''), (5, ''3/4'')]) =
     Some (Inr [[(1, 4, [''4/4'']), (2, 4, []), (3, 4, []), (4, 4, []),
                (5, 3, [''3/4'']), (6, 3, []), (7, 3, []), (8, 3, [])]])"
  by code_simp

end
